theory Spec2Isabelle
  imports Main
begin

unbundle bit_operations_syntax

section \<open>Webhook intake, processing and replay (saas-webhooks)\<close>

text \<open>
  The development follows the webhook processor documented in the saas-webhooks
  service: the signature check \<^verbatim>\<open>_verify_signature\<close>, the ingestion handler
  \<^verbatim>\<open>receive_webhook\<close> with its idempotency check, the background worker
  \<^verbatim>\<open>_process_event\<close> and the operator endpoint \<^verbatim>\<open>replay_event\<close>, all working on
  the in-memory dictionary \<^verbatim>\<open>_EVENTS: dict[str, WebhookLogEntry]\<close>.
\<close>

subsection \<open>Data model\<close>

text \<open>Opaque JSON values: the event payload, the stored metadata and response bodies.\<close>

datatype json = JNull | JString string | JInt int | JObject "(string \<times> json) list"

text \<open>The value of \<^verbatim>\<open>_utc_now()\<close>; every operation that reads the clock takes it as an argument.\<close>

type_synonym timestamp = string

text \<open>The four values of the \<^verbatim>\<open>status\<close> field of a log entry.\<close>

datatype event_status = queued | processed | failed | retry_scheduled

text \<open>
  \<^verbatim>\<open>StripeWebhookRequest(id=..., type=..., data=...)\<close>, the parsed request body.
  The fields are prefixed because \<open>id\<close> is the identity function of HOL.
\<close>

record StripeWebhookRequest =
  req_id :: string
  req_type :: string
  req_data :: json

text \<open>
  \<^verbatim>\<open>WebhookLogEntry\<close>: \<^verbatim>\<open>processed_at\<close> and \<^verbatim>\<open>last_error\<close> are nullable, the two counters
  are Python integers.
\<close>

record WebhookLogEntry =
  event_id :: string
  event_type :: string
  status :: event_status
  received_at :: timestamp
  processed_at :: "timestamp option"
  attempts :: int
  replay_count :: int
  last_error :: "string option"
  metadata :: json

text \<open>The dictionary \<^verbatim>\<open>_EVENTS\<close>.\<close>

type_synonym event_store = "string \<rightharpoonup> WebhookLogEntry"

text \<open>
  Every way in which the documented functions raise. \<open>KeyError\<close> is the subscript
  \<^verbatim>\<open>_EVENTS[event.id]\<close> on a missing key, \<open>AttributeError\<close> the attribute access on the
  \<^verbatim>\<open>None\<close> that \<^verbatim>\<open>_EVENTS.get\<close> returns for a missing key, \<open>UnicodeDecodeError\<close> is raised by
  \<^verbatim>\<open>body.decode()\<close> and \<open>TypeError\<close> by \<^verbatim>\<open>hmac.compare_digest\<close> on a non-ASCII string.
  \<open>MalformedSignatureHeader\<close>, \<open>AuthenticationError\<close> and \<open>NotFound\<close> are the request-path
  rejections.
\<close>

datatype error =
    KeyError string
  | AttributeError
  | UnicodeDecodeError
  | TypeError
  | MalformedSignatureHeader
  | AuthenticationError
  | NotFound

subsection \<open>The background worker\<close>

text \<open>
  What the awaited call \<^verbatim>\<open>_dispatch_subscription_notifications(event)\<close> does in one
  attempt: it returns, or it raises an \<^verbatim>\<open>Exception\<close> whose \<^verbatim>\<open>str(exc)\<close> is given. (What
  is not an \<^verbatim>\<open>Exception\<close>, such as the cancellation of the running call, is not an outcome
  of the dispatch and is not modelled.)
\<close>

datatype outcome = Succeeds | Raises string

text \<open>
  \<^verbatim>\<open>
  async def _process_event(event):
      record = _EVENTS[event.id]
      max_attempts = int(os.getenv("WEBHOOKS_MAX_RETRIES", "3"))
      record.attempts += 1
      try:
          await _dispatch_subscription_notifications(event)
          record.status = "processed"
          record.processed_at = _utc_now()
      except Exception as exc:
          record.last_error = str(exc)
          record.status = "failed"
          if record.attempts < max_attempts:
              record.status = "retry_scheduled"
  \<close>
  The record is a shared object: every assignment is visible in \<^verbatim>\<open>_EVENTS\<close>. The function
  suspends at the \<^verbatim>\<open>await\<close>, so it is modelled in two halves, \<open>begin_attempt\<close> up to the
  \<^verbatim>\<open>await\<close> and \<open>finish_attempt\<close> after it; \<open>process_event\<close> is one uninterrupted run of
  both. \<open>max_attempts\<close> is the configured bound (3 unless the environment says otherwise).
\<close>

definition begin_attempt :: "StripeWebhookRequest \<Rightarrow> event_store \<Rightarrow> error + event_store" where
  "begin_attempt event EVENTS =
     (case EVENTS (req_id event) of
        None \<Rightarrow> Inl (KeyError (req_id event))
      | Some record \<Rightarrow>
          Inr (EVENTS(req_id event \<mapsto> record\<lparr>attempts := attempts record + 1\<rparr>)))"

definition record_outcome :: "int \<Rightarrow> outcome \<Rightarrow> timestamp \<Rightarrow> WebhookLogEntry \<Rightarrow> WebhookLogEntry" where
  "record_outcome max_attempts out now record =
     (case out of
        Succeeds \<Rightarrow> record\<lparr>status := processed, processed_at := Some now\<rparr>
      | Raises exc \<Rightarrow>
          (let record1 = record\<lparr>last_error := Some exc, status := failed\<rparr>
           in if attempts record1 < max_attempts
              then record1\<lparr>status := retry_scheduled\<rparr>
              else record1))"

definition finish_attempt ::
  "int \<Rightarrow> outcome \<Rightarrow> timestamp \<Rightarrow> StripeWebhookRequest \<Rightarrow> event_store \<Rightarrow> event_store" where
  "finish_attempt max_attempts out now event EVENTS =
     (case EVENTS (req_id event) of
        None \<Rightarrow> EVENTS
      | Some record \<Rightarrow> EVENTS(req_id event \<mapsto> record_outcome max_attempts out now record))"

definition process_event ::
  "int \<Rightarrow> outcome \<Rightarrow> timestamp \<Rightarrow> StripeWebhookRequest \<Rightarrow> event_store \<Rightarrow> error + event_store" where
  "process_event max_attempts out now event EVENTS =
     (case begin_attempt event EVENTS of
        Inl e \<Rightarrow> Inl e
      | Inr EVENTS1 \<Rightarrow> Inr (finish_attempt max_attempts out now event EVENTS1))"

subsection \<open>Signature verification\<close>

text \<open>
  Text and bytes. A Python \<^verbatim>\<open>str\<close> is represented by its UTF-8 encoding and \<^verbatim>\<open>bytes\<close> by
  themselves, both as \<open>string\<close> (a list of 8-bit characters). In this representation
  \<^verbatim>\<open>s.encode()\<close> is the identity, an f-string is concatenation, a \<^verbatim>\<open>str\<close> is ASCII exactly
  when all its bytes are below 128, and \<^verbatim>\<open>b.decode()\<close> returns \<open>b\<close> when \<open>b\<close> is well-formed
  UTF-8 and raises \<^verbatim>\<open>UnicodeDecodeError\<close> otherwise.
\<close>

definition cont_byte :: "nat \<Rightarrow> bool" where
  "cont_byte b = (0x80 \<le> b \<and> b \<le> 0xBF)"

definition second_of_3 :: "nat \<Rightarrow> nat \<Rightarrow> bool" where
  "second_of_3 b0 b1 =
     (if b0 = 0xE0 then 0xA0 \<le> b1 \<and> b1 \<le> 0xBF
      else if b0 = 0xED then 0x80 \<le> b1 \<and> b1 \<le> 0x9F
      else cont_byte b1)"

definition second_of_4 :: "nat \<Rightarrow> nat \<Rightarrow> bool" where
  "second_of_4 b0 b1 =
     (if b0 = 0xF0 then 0x90 \<le> b1 \<and> b1 \<le> 0xBF
      else if b0 = 0xF4 then 0x80 \<le> b1 \<and> b1 \<le> 0x8F
      else cont_byte b1)"

text \<open>
  Well-formed UTF-8 as the strict decoder accepts it: no overlong forms, no surrogates,
  nothing above U+10FFFF, no truncated sequence.
\<close>

fun utf8_valid :: "nat list \<Rightarrow> bool" where
  "utf8_valid [] = True"
| "utf8_valid [b0] = (b0 < 0x80)"
| "utf8_valid [b0, b1] =
     (if b0 < 0x80 then utf8_valid [b1]
      else 0xC2 \<le> b0 \<and> b0 \<le> 0xDF \<and> cont_byte b1)"
| "utf8_valid [b0, b1, b2] =
     (if b0 < 0x80 then utf8_valid [b1, b2]
      else if 0xC2 \<le> b0 \<and> b0 \<le> 0xDF then cont_byte b1 \<and> utf8_valid [b2]
      else 0xE0 \<le> b0 \<and> b0 \<le> 0xEF \<and> second_of_3 b0 b1 \<and> cont_byte b2)"
| "utf8_valid (b0 # b1 # b2 # b3 # bs) =
     (if b0 < 0x80 then utf8_valid (b1 # b2 # b3 # bs)
      else if 0xC2 \<le> b0 \<and> b0 \<le> 0xDF then cont_byte b1 \<and> utf8_valid (b2 # b3 # bs)
      else if 0xE0 \<le> b0 \<and> b0 \<le> 0xEF
        then second_of_3 b0 b1 \<and> cont_byte b2 \<and> utf8_valid (b3 # bs)
      else 0xF0 \<le> b0 \<and> b0 \<le> 0xF4 \<and> second_of_4 b0 b1 \<and> cont_byte b2 \<and> cont_byte b3 \<and>
           utf8_valid bs)"

definition decode :: "string \<Rightarrow> error + string" where
  "decode body =
     (if utf8_valid (map of_char body) then Inr body else Inl UnicodeDecodeError)"

definition encode :: "string \<Rightarrow> string" where
  "encode text = text"

definition is_ascii :: "string \<Rightarrow> bool" where
  "is_ascii s = list_all (\<lambda>c. (of_char c :: nat) < 128) s"

text \<open>
  \<^verbatim>\<open>hmac.compare_digest(a, b)\<close> on two \<^verbatim>\<open>str\<close> arguments: it raises \<^verbatim>\<open>TypeError\<close> unless both are
  ASCII, and otherwise tells whether they are equal (in time independent of where they
  differ, which a function of the arguments cannot express).
\<close>

definition compare_digest :: "string \<Rightarrow> string \<Rightarrow> error + bool" where
  "compare_digest a b = (if is_ascii a \<and> is_ascii b then Inr (a = b) else Inl TypeError)"

text \<open>\<^verbatim>\<open>.hexdigest()\<close>: two lower-case hexadecimal digits for each byte of the digest.\<close>

definition hex_digit :: "nat \<Rightarrow> char" where
  "hex_digit n = ''0123456789abcdef'' ! (n mod 16)"

definition hexdigest :: "string \<Rightarrow> string" where
  "hexdigest digest =
     concat (map (\<lambda>c. [hex_digit (of_char c div 16), hex_digit (of_char c mod 16)]) digest)"

text \<open>
  The keyed hash \<^verbatim>\<open>hmac.new(key, msg, hashlib.sha256).digest()\<close> belongs to the Python
  library; the functions below take it as the argument \<open>H\<close>, from key and message to the
  raw digest.
\<close>

type_synonym hmac = "string \<Rightarrow> string \<Rightarrow> string"

text \<open>\<^verbatim>\<open>str.split(sep)\<close> for a one-character separator.\<close>

fun split_on :: "char \<Rightarrow> string \<Rightarrow> string list" where
  "split_on sep [] = [[]]"
| "split_on sep (c # cs) =
     (if c = sep then [] # split_on sep cs
      else (case split_on sep cs of
              [] \<Rightarrow> [[c]]
            | w # ws \<Rightarrow> (c # w) # ws))"

text \<open>
  Modelled from the spec: the body of \<^verbatim>\<open>_parse_signature_header\<close> is not part of the
  documented code. The header has the form \<^verbatim>\<open>t=<unix-timestamp>,v1=<hex-hmac>\<close>; parsing
  gives the pair of timestamp and signature and fails with \<open>MalformedSignatureHeader\<close>
  when the header is not made of these two comma-separated fields.
\<close>

definition parse_signature_header :: "string \<Rightarrow> error + (string \<times> string)" where
  "parse_signature_header header =
     (case split_on CHR '','' header of
        [a, b] \<Rightarrow>
          (if take 2 a = ''t='' \<and> take 3 b = ''v1=''
           then Inr (drop 2 a, drop 3 b)
           else Inl MalformedSignatureHeader)
      | _ \<Rightarrow> Inl MalformedSignatureHeader)"

text \<open>
  \<^verbatim>\<open>
  def _verify_signature(body: bytes, header: str, secret: str) -> bool:
      timestamp, signature = _parse_signature_header(header)
      signed_payload = f"{timestamp}.{body.decode()}"
      expected = hmac.new(secret.encode(), signed_payload.encode(), hashlib.sha256).hexdigest()
      return hmac.compare_digest(expected, signature)
  \<close>
\<close>

definition verify_signature :: "hmac \<Rightarrow> string \<Rightarrow> string \<Rightarrow> string \<Rightarrow> error + bool" where
  "verify_signature H body header secret =
     (case parse_signature_header header of
        Inl e \<Rightarrow> Inl e
      | Inr (timestamp, signature) \<Rightarrow>
          (case decode body of
             Inl e \<Rightarrow> Inl e
           | Inr text \<Rightarrow>
               (let signed_payload = timestamp @ ''.'' @ text;
                    expected = hexdigest (H (encode secret) (encode signed_payload))
                in compare_digest expected signature)))"

text \<open>
  The sender's side, from the documented way of producing a test signature:
  \<^verbatim>\<open>
  sig = hmac.new(secret.encode(), f"{ts}.{body}".encode(), hashlib.sha256).hexdigest()
  print(f"Stripe-Signature: t={ts},v1={sig}")
  \<close>
  Here \<^verbatim>\<open>body\<close> is the text that is sent as the request body.
\<close>

definition sign :: "hmac \<Rightarrow> string \<Rightarrow> string \<Rightarrow> string \<Rightarrow> string" where
  "sign H ts body secret = hexdigest (H (encode secret) (encode (ts @ ''.'' @ body)))"

definition signature_header :: "string \<Rightarrow> string \<Rightarrow> string" where
  "signature_header ts sig = ''t='' @ ts @ '',v1='' @ sig"

text \<open>
  One bit of one byte differs; used to say what a single-bit mutation of a body or of a
  signature is.
\<close>

definition one_bit_apart :: "char \<Rightarrow> char \<Rightarrow> bool" where
  "one_bit_apart c d =
     ((of_char c XOR of_char d :: nat) \<in> set [1, 2, 4, 8, 16, 32, 64, 128])"

fun single_bit_mutation :: "string \<Rightarrow> string \<Rightarrow> bool" where
  "single_bit_mutation [] ys = False"
| "single_bit_mutation (x # xs) [] = False"
| "single_bit_mutation (x # xs) (y # ys) =
     ((one_bit_apart x y \<and> xs = ys) \<or> (x = y \<and> single_bit_mutation xs ys))"

subsection \<open>The application state\<close>

text \<open>
  \<open>events\<close> is \<^verbatim>\<open>_EVENTS\<close>. \<open>background_tasks\<close> holds the calls
  \<^verbatim>\<open>background_tasks.add_task(_process_event, payload)\<close> that have not started yet, and
  \<open>in_flight\<close> the attempts that are suspended at their \<^verbatim>\<open>await\<close>.
\<close>

record app_state =
  events :: event_store
  background_tasks :: "StripeWebhookRequest list"
  in_flight :: "StripeWebhookRequest list"

definition init_state :: app_state where
  "init_state = \<lparr>events = Map.empty, background_tasks = [], in_flight = []\<rparr>"

type_synonym response = "(string \<times> json) list"

subsection \<open>Ingestion\<close>

text \<open>
  Modelled from the spec: no documented code builds or stores the log entry of a new
  event; step 3 of \<^verbatim>\<open>receive_webhook\<close> (\<^verbatim>\<open># 3. Persist log entry\<close>) is only a comment.
  By the Event Store's \<^verbatim>\<open>create_if_absent\<close> the new record has \<^verbatim>\<open>status=queued\<close>,
  \<^verbatim>\<open>attempts=0\<close>, \<^verbatim>\<open>replay_count=0\<close> and \<^verbatim>\<open>received_at=now\<close>, it has no \<^verbatim>\<open>processed_at\<close> and
  no \<^verbatim>\<open>last_error\<close> yet, and its metadata is the event's payload, from which a replay
  rebuilds the request. The documented sample entry
  \<^verbatim>\<open>WebhookLogEntry(event_id=..., event_type=..., status="queued", received_at=..., attempts=0, metadata=...)\<close>
  agrees with this.
\<close>

definition new_entry :: "StripeWebhookRequest \<Rightarrow> timestamp \<Rightarrow> WebhookLogEntry" where
  "new_entry payload now =
     \<lparr>event_id = req_id payload, event_type = req_type payload, status = queued,
      received_at = now, processed_at = None, attempts = 0, replay_count = 0,
      last_error = None, metadata = req_data payload\<rparr>"

text \<open>
  Modelled from the spec: step 1 of \<^verbatim>\<open>receive_webhook\<close> is only a comment in the
  documented handler. The signature is checked when the request carries a
  \<^verbatim>\<open>Stripe-Signature\<close> header and skipped otherwise (local testing); a mismatch or a
  malformed header rejects the request with \<open>AuthenticationError\<close>.
\<close>

definition signature_gate :: "hmac \<Rightarrow> string \<Rightarrow> string \<Rightarrow> string option \<Rightarrow> error + unit" where
  "signature_gate H secret raw_body stripe_signature =
     (case stripe_signature of
        None \<Rightarrow> Inr ()
      | Some header \<Rightarrow>
          (case verify_signature H raw_body header secret of
             Inl MalformedSignatureHeader \<Rightarrow> Inl AuthenticationError
           | Inl e \<Rightarrow> Inl e
           | Inr ok \<Rightarrow> if ok then Inr () else Inl AuthenticationError))"

text \<open>
  Modelled from the spec: the write to \<^verbatim>\<open>_EVENTS\<close> that persists the log entry. No
  documented code assigns to \<^verbatim>\<open>_EVENTS\<close>; by \<^verbatim>\<open>create_if_absent\<close> the new record is
  inserted under the event's id.
\<close>

definition persist_log_entry :: "StripeWebhookRequest \<Rightarrow> timestamp \<Rightarrow> event_store \<Rightarrow> event_store" where
  "persist_log_entry payload now EVENTS = EVENTS(req_id payload \<mapsto> new_entry payload now)"

text \<open>
  Modelled from the spec: steps 1 and 3 of the handler, which the documented code
  leaves as comments; they are \<open>signature_gate\<close> and \<open>persist_log_entry\<close> above. Step 2
  is the documented idempotency check, step 4 and the two responses are the documented
  code:
  \<^verbatim>\<open>
  async def receive_webhook(payload, background_tasks):
      # 1. Verify signature immediately
      # 2. Check idempotency
      existing = _EVENTS.get(payload.id)
      if existing:
          return {"status": "duplicate", "event_id": payload.id, "attempts": existing.attempts}
      # 3. Persist log entry
      # 4. Queue background processing
      background_tasks.add_task(_process_event, payload)
      return {"status": "accepted", "event_id": payload.id}
  \<close>
  A log entry is an object and therefore true in the test \<^verbatim>\<open>if existing\<close>. A response
  body is the list of its fields in order.
\<close>

definition receive_webhook ::
  "hmac \<Rightarrow> string \<Rightarrow> timestamp \<Rightarrow> string \<Rightarrow> string option \<Rightarrow> StripeWebhookRequest \<Rightarrow> app_state
     \<Rightarrow> error + (response \<times> app_state)" where
  "receive_webhook H secret now raw_body stripe_signature payload s =
     (case signature_gate H secret raw_body stripe_signature of
        Inl e \<Rightarrow> Inl e
      | Inr _ \<Rightarrow>
          (case events s (req_id payload) of
             Some existing \<Rightarrow>
               Inr ([(''status'', JString ''duplicate''),
                     (''event_id'', JString (req_id payload)),
                     (''attempts'', JInt (attempts existing))], s)
           | None \<Rightarrow>
               Inr ([(''status'', JString ''accepted''),
                     (''event_id'', JString (req_id payload))],
                    s\<lparr>events := persist_log_entry payload now (events s),
                      background_tasks := background_tasks s @ [payload]\<rparr>)))"

subsection \<open>Replay\<close>

text \<open>
  \<^verbatim>\<open>
  async def replay_event(event_id: str):
      event = _EVENTS.get(event_id)
      event.replay_count += 1
      replay_payload = StripeWebhookRequest(id=event.event_id, type=event.event_type, data=event.metadata)
      background_tasks.add_task(_process_event, replay_payload)
      return {"status": "replay_accepted"}
  \<close>
  \<^verbatim>\<open>_EVENTS.get\<close> returns \<^verbatim>\<open>None\<close> for an unknown id, and the next line then raises
  \<^verbatim>\<open>AttributeError\<close>, before anything is written. The scheduled call goes to the same
  queue as the one of \<^verbatim>\<open>receive_webhook\<close>.
\<close>

definition replay_event :: "string \<Rightarrow> app_state \<Rightarrow> error + (response \<times> app_state)" where
  "replay_event eid s =
     (case events s eid of
        None \<Rightarrow> Inl AttributeError
      | Some event0 \<Rightarrow>
          (let event = event0\<lparr>replay_count := replay_count event0 + 1\<rparr>;
               replay_payload = \<lparr>req_id = event_id event, req_type = event_type event,
                                 req_data = metadata event\<rparr>
           in Inr ([(''status'', JString ''replay_accepted'')],
                   s\<lparr>events := (events s)(eid \<mapsto> event),
                     background_tasks := background_tasks s @ [replay_payload]\<rparr>)))"

subsection \<open>Runs of the service\<close>

text \<open>
  What can happen to the application state: a request to either endpoint, a scheduled
  task starting, and a suspended attempt resuming with the outcome of its dispatch. A
  request that is rejected, and an action that is not possible in the state, leave the
  state as it is.
\<close>

datatype action =
    Intake timestamp string "string option" StripeWebhookRequest
  | Replay string
  | Begin StripeWebhookRequest
  | Finish StripeWebhookRequest outcome timestamp

definition step :: "hmac \<Rightarrow> string \<Rightarrow> int \<Rightarrow> action \<Rightarrow> app_state \<Rightarrow> app_state" where
  "step H secret max_attempts a s =
     (case a of
        Intake now raw_body stripe_signature payload \<Rightarrow>
          (case receive_webhook H secret now raw_body stripe_signature payload s of
             Inl e \<Rightarrow> s
           | Inr (resp, s') \<Rightarrow> s')
      | Replay eid \<Rightarrow>
          (case replay_event eid s of
             Inl e \<Rightarrow> s
           | Inr (resp, s') \<Rightarrow> s')
      | Begin event \<Rightarrow>
          (if event \<in> set (background_tasks s)
           then (case begin_attempt event (events s) of
                   Inl e \<Rightarrow> s\<lparr>background_tasks := remove1 event (background_tasks s)\<rparr>
                 | Inr EVENTS1 \<Rightarrow>
                     s\<lparr>events := EVENTS1,
                       background_tasks := remove1 event (background_tasks s),
                       in_flight := event # in_flight s\<rparr>)
           else s)
      | Finish event out now \<Rightarrow>
          (if event \<in> set (in_flight s)
           then s\<lparr>events := finish_attempt max_attempts out now event (events s),
                  in_flight := remove1 event (in_flight s)\<rparr>
           else s))"

definition run :: "hmac \<Rightarrow> string \<Rightarrow> int \<Rightarrow> action list \<Rightarrow> app_state" where
  "run H secret max_attempts acts = foldl (\<lambda>s a. step H secret max_attempts a s) init_state acts"

subsection \<open>Sample data\<close>

text \<open>
  The event of the documented scenario, and its log entry after one failed attempt that
  raised \<^verbatim>\<open>boom\<close>.
\<close>

definition evt_1 :: StripeWebhookRequest where
  "evt_1 = \<lparr>req_id = ''evt_1'', req_type = ''x.y'', req_data = JObject []\<rparr>"

definition failed_once :: WebhookLogEntry where
  "failed_once = (new_entry evt_1 ''2026-02-16T10:23:45Z'')
     \<lparr>status := retry_scheduled, attempts := 1, last_error := Some ''boom''\<rparr>"

text \<open>A second delivery under the id of \<^verbatim>\<open>evt_1\<close> with another type and other data.\<close>

definition evt_1_again :: StripeWebhookRequest where
  "evt_1_again = \<lparr>req_id = ''evt_1'', req_type = ''x.z'', req_data = JObject [(''n'', JInt 2)]\<rparr>"

text \<open>
  A first delivery of \<^verbatim>\<open>evt_1\<close> without signature header, processed successfully, and a
  later replay of it whose attempt fails.
\<close>

definition sample_run :: "action list" where
  "sample_run =
     [Intake ''2026-02-16T10:23:45Z'' ''{}'' None evt_1,
      Begin evt_1,
      Finish evt_1 Succeeds ''2026-02-16T10:23:46Z'']"

definition sample_replay :: "action list" where
  "sample_replay =
     [Replay ''evt_1'',
      Begin evt_1,
      Finish evt_1 (Raises ''boom'') ''2026-02-16T10:24:00Z'']"

subsection \<open>What every run maintains\<close>

text \<open>
  Every scheduled or suspended task has its record in the store, every record is stored
  under its own \<open>event_id\<close>, and a record whose status is \<open>processed\<close> has a
  \<open>processed_at\<close> timestamp.
\<close>

definition consistent :: "app_state \<Rightarrow> bool" where
  "consistent s =
     ((\<forall>ev \<in> set (background_tasks s) \<union> set (in_flight s). events s (req_id ev) \<noteq> None) \<and>
      (\<forall>k r. events s k = Some r \<longrightarrow>
         event_id r = k \<and> (status r = processed \<longrightarrow> processed_at r \<noteq> None)))"

section \<open>Properties\<close>

subsection \<open>One attempt of the background worker\<close>

lemma process_event_present:
  "EVENTS (req_id event) = Some entry \<Longrightarrow>
   process_event max_attempts out now event EVENTS =
     Inr (EVENTS(req_id event \<mapsto>
            record_outcome max_attempts out now (entry\<lparr>attempts := attempts entry + 1\<rparr>)))"
  by (simp add: process_event_def begin_attempt_def finish_attempt_def)

lemma process_event_absent:
  "EVENTS (req_id event) = None \<Longrightarrow>
   process_event max_attempts out now event EVENTS = Inl (KeyError (req_id event))"
  by (simp add: process_event_def begin_attempt_def)

lemma process_event_failure:
  "EVENTS (req_id event) = Some entry \<Longrightarrow>
   process_event max_attempts (Raises exc) now event EVENTS =
     Inr (EVENTS(req_id event \<mapsto>
            entry\<lparr>attempts := attempts entry + 1, last_error := Some exc,
                   status := (if attempts entry + 1 < max_attempts then retry_scheduled else failed)\<rparr>))"
  by (simp add: process_event_present record_outcome_def Let_def)

text \<open>
  C5 (as amended). A successful attempt leaves the record with status \<open>processed\<close> and
  \<open>processed_at\<close> equal to the current time; \<open>last_error\<close> is not cleared but keeps the
  value it had before the attempt.
\<close>

theorem process_event_success:
  assumes "EVENTS (req_id event) = Some entry"
  shows "\<exists>EVENTS' entry'.
           process_event max_attempts Succeeds now event EVENTS = Inr EVENTS' \<and>
           EVENTS' (req_id event) = Some entry' \<and>
           status entry' = processed \<and>
           processed_at entry' = Some now \<and>
           last_error entry' = last_error entry"
  using assms by (simp add: process_event_present record_outcome_def)

text \<open>
  C5, an instance: the entry that failed once with \<^verbatim>\<open>boom\<close> is processed successfully and
  still carries \<^verbatim>\<open>boom\<close> as its last error.
\<close>

theorem process_event_success_witness:
  "[''evt_1'' \<mapsto> failed_once] (req_id evt_1) = Some failed_once \<and>
   (\<exists>EVENTS' entry'.
      process_event 3 Succeeds ''2026-02-16T10:23:46Z'' evt_1 [''evt_1'' \<mapsto> failed_once] = Inr EVENTS' \<and>
      EVENTS' (req_id evt_1) = Some entry' \<and>
      status entry' = processed \<and>
      processed_at entry' = Some ''2026-02-16T10:23:46Z'' \<and>
      last_error entry' = Some ''boom'')"
proof -
  have h: "[''evt_1'' \<mapsto> failed_once] (req_id evt_1) = Some failed_once"
    by (simp add: evt_1_def)
  have e: "last_error failed_once = Some ''boom''"
    by (simp add: failed_once_def)
  show ?thesis
    using h e process_event_success [where EVENTS = "[''evt_1'' \<mapsto> failed_once]"
        and event = evt_1 and entry = failed_once and max_attempts = 3
        and now = "''2026-02-16T10:23:46Z''"]
    by simp
qed

text \<open>
  C5 as stated fails: after a successful attempt on an entry whose \<open>last_error\<close> is
  \<^verbatim>\<open>boom\<close>, the stored \<open>last_error\<close> is still \<^verbatim>\<open>boom\<close>, not null.
\<close>

theorem process_event_success_keeps_last_error:
  "(case process_event 3 Succeeds ''2026-02-16T10:23:46Z'' evt_1 [''evt_1'' \<mapsto> failed_once] of
      Inl e \<Rightarrow> None
    | Inr EVENTS' \<Rightarrow> map_option last_error (EVENTS' ''evt_1'')) = Some (Some ''boom'')"
  by (simp add: process_event_def begin_attempt_def finish_attempt_def record_outcome_def
      evt_1_def failed_once_def)

text \<open>
  C9. The failure branch, which runs when the dispatch has raised, writes \<open>last_error\<close>
  and \<open>status\<close> of the event's record and nothing else. Over the whole failed attempt,
  which has incremented \<open>attempts\<close> before dispatching, \<open>event_id\<close>, \<open>event_type\<close>,
  \<open>received_at\<close>, \<open>replay_count\<close>, \<open>metadata\<close> and \<open>processed_at\<close> (so also a timestamp
  left by an earlier success) keep their values, and no other record of the store is
  touched.
\<close>

theorem process_event_failure_frame:
  assumes "EVENTS (req_id event) = Some entry"
  shows "finish_attempt max_attempts (Raises exc) now event EVENTS =
           EVENTS(req_id event \<mapsto>
             entry\<lparr>last_error := Some exc,
                    status := (if attempts entry < max_attempts then retry_scheduled else failed)\<rparr>) \<and>
         (\<exists>entry'.
           process_event max_attempts (Raises exc) now event EVENTS =
             Inr (EVENTS(req_id event \<mapsto> entry')) \<and>
           status entry' = (if attempts entry + 1 < max_attempts then retry_scheduled else failed) \<and>
           last_error entry' = Some exc \<and>
           event_id entry' = event_id entry \<and>
           event_type entry' = event_type entry \<and>
           received_at entry' = received_at entry \<and>
           replay_count entry' = replay_count entry \<and>
           metadata entry' = metadata entry \<and>
           processed_at entry' = processed_at entry)"
proof
  show "finish_attempt max_attempts (Raises exc) now event EVENTS =
           EVENTS(req_id event \<mapsto>
             entry\<lparr>last_error := Some exc,
                    status := (if attempts entry < max_attempts then retry_scheduled else failed)\<rparr>)"
    using assms by (simp add: finish_attempt_def record_outcome_def Let_def)
next
  show "\<exists>entry'.
           process_event max_attempts (Raises exc) now event EVENTS =
             Inr (EVENTS(req_id event \<mapsto> entry')) \<and>
           status entry' = (if attempts entry + 1 < max_attempts then retry_scheduled else failed) \<and>
           last_error entry' = Some exc \<and>
           event_id entry' = event_id entry \<and>
           event_type entry' = event_type entry \<and>
           received_at entry' = received_at entry \<and>
           replay_count entry' = replay_count entry \<and>
           metadata entry' = metadata entry \<and>
           processed_at entry' = processed_at entry"
    using assms
    by (intro exI [where x = "entry\<lparr>attempts := attempts entry + 1, last_error := Some exc,
          status := (if attempts entry + 1 < max_attempts then retry_scheduled else failed)\<rparr>"])
       (simp add: process_event_failure)
qed

text \<open>C9, an instance: a second failure of the entry that failed once.\<close>

theorem process_event_failure_frame_witness:
  "[''evt_1'' \<mapsto> failed_once] (req_id evt_1) = Some failed_once \<and>
   finish_attempt 3 (Raises ''timeout'') ''2026-02-16T10:23:46Z'' evt_1 [''evt_1'' \<mapsto> failed_once] =
     [''evt_1'' \<mapsto> failed_once](req_id evt_1 \<mapsto>
        failed_once\<lparr>last_error := Some ''timeout'', status := retry_scheduled\<rparr>) \<and>
   (\<exists>entry'.
      process_event 3 (Raises ''timeout'') ''2026-02-16T10:23:46Z'' evt_1 [''evt_1'' \<mapsto> failed_once] =
        Inr ([''evt_1'' \<mapsto> failed_once](req_id evt_1 \<mapsto> entry')) \<and>
      status entry' = retry_scheduled \<and>
      last_error entry' = Some ''timeout'' \<and>
      event_id entry' = event_id failed_once \<and>
      event_type entry' = event_type failed_once \<and>
      received_at entry' = received_at failed_once \<and>
      replay_count entry' = replay_count failed_once \<and>
      metadata entry' = metadata failed_once \<and>
      processed_at entry' = processed_at failed_once)"
proof -
  have h: "[''evt_1'' \<mapsto> failed_once] (req_id evt_1) = Some failed_once"
    by (simp add: evt_1_def)
  have a: "attempts failed_once = 1"
    by (simp add: failed_once_def)
  show ?thesis
    using h a process_event_failure_frame [where EVENTS = "[''evt_1'' \<mapsto> failed_once]"
        and event = evt_1 and entry = failed_once and max_attempts = 3
        and exc = "''timeout''" and now = "''2026-02-16T10:23:46Z''"]
    by simp
qed

subsection \<open>Exhausted retries\<close>

lemma record_outcome_attempts: "attempts (record_outcome m out now r) = attempts r"
  by (cases out) (simp_all add: record_outcome_def Let_def)

lemma step_attempts:
  assumes "events s k = Some r"
  shows "\<exists>r'. events (step H secret m a s) k = Some r' \<and> attempts r \<le> attempts r'"
proof (cases a)
  case (Intake now raw_body sig payload)
  with assms show ?thesis
    by (auto simp: step_def receive_webhook_def persist_log_entry_def split: sum.splits option.splits)
next
  case (Replay eid)
  with assms show ?thesis
    by (auto simp: step_def replay_event_def Let_def split: option.splits)
next
  case (Begin event)
  with assms show ?thesis
    by (auto simp: step_def begin_attempt_def split: option.splits)
next
  case (Finish event out now)
  with assms show ?thesis
    by (auto simp: step_def finish_attempt_def record_outcome_attempts split: option.splits)
qed

lemma steps_attempts:
  "events s k = Some r \<Longrightarrow>
   \<exists>r'. events (foldl (\<lambda>s a. step H secret m a s) s acts) k = Some r' \<and> attempts r \<le> attempts r'"
proof (induction acts arbitrary: s r)
  case Nil
  then show ?case by simp
next
  case (Cons a acts)
  from step_attempts [where s = s and k = k and r = r and H = H and secret = secret and m = m
      and a = a] Cons.prems
  obtain r1 where 1: "events (step H secret m a s) k = Some r1" "attempts r \<le> attempts r1"
    by blast
  from Cons.IH [where s = "step H secret m a s" and r = r1] 1(1)
  obtain r2 where "events (foldl (\<lambda>s a. step H secret m a s) (step H secret m a s) acts) k = Some r2"
    "attempts r1 \<le> attempts r2" by blast
  with 1(2) show ?case by auto
qed

lemma failing_attempt_exhausted:
  assumes "E (req_id ev) = Some r" and "m \<le> attempts r + 1"
  shows "\<exists>E1 r1. process_event m (Raises exc) now ev E = Inr E1 \<and> E1 (req_id ev) = Some r1 \<and>
           status r1 = failed \<and> attempts r1 = attempts r + 1"
  using assms by (simp add: process_event_failure)

lemma finish_attempt_exhausted:
  assumes "E (req_id ev) = Some r" and "m \<le> attempts r"
  shows "\<exists>r1. finish_attempt m (Raises exc) now ev E (req_id ev) = Some r1 \<and> status r1 = failed"
  using assms by (simp add: finish_attempt_def record_outcome_def Let_def)

text \<open>
  C3. When an attempt that brings the counter to \<open>max_attempts\<close> or beyond fails, the
  record's status is \<open>failed\<close>. Whatever happens afterwards (deliveries, replays, attempts
  on this or other events starting and ending in any order and with any outcome), every
  later failure on this event leaves the status \<open>failed\<close> again, never \<open>retry_scheduled\<close>:
  both a whole attempt that fails and the failing end of an attempt that was suspended.
\<close>

theorem failed_is_terminal:
  assumes "events s (req_id event) = Some entry"
    and "max_attempts \<le> attempts entry + 1"
  shows "\<exists>EVENTS1 entry1.
     process_event max_attempts (Raises exc) now event (events s) = Inr EVENTS1 \<and>
     EVENTS1 (req_id event) = Some entry1 \<and>
     status entry1 = failed \<and>
     (\<forall>acts exc' now'. \<exists>EVENTS2 entry2 entry3.
         process_event max_attempts (Raises exc') now' event
           (events (foldl (\<lambda>s a. step H secret max_attempts a s) (s\<lparr>events := EVENTS1\<rparr>) acts)) =
           Inr EVENTS2 \<and>
         EVENTS2 (req_id event) = Some entry2 \<and>
         status entry2 = failed \<and>
         finish_attempt max_attempts (Raises exc') now' event
           (events (foldl (\<lambda>s a. step H secret max_attempts a s) (s\<lparr>events := EVENTS1\<rparr>) acts))
           (req_id event) = Some entry3 \<and>
         status entry3 = failed)"
proof -
  from failing_attempt_exhausted [where E = "events s" and ev = event and r = entry
      and m = max_attempts and exc = exc and now = now] assms
  obtain E1 r1 where 1: "process_event max_attempts (Raises exc) now event (events s) = Inr E1"
    "E1 (req_id event) = Some r1" "status r1 = failed" "attempts r1 = attempts entry + 1"
    by blast
  let ?later = "\<lambda>acts. events (foldl (\<lambda>s a. step H secret max_attempts a s) (s\<lparr>events := E1\<rparr>) acts)"
  have "\<exists>E2 r2 r3.
         process_event max_attempts (Raises exc') now' event (?later acts) = Inr E2 \<and>
         E2 (req_id event) = Some r2 \<and> status r2 = failed \<and>
         finish_attempt max_attempts (Raises exc') now' event (?later acts) (req_id event) = Some r3 \<and>
         status r3 = failed" for acts exc' now'
  proof -
    have "events (s\<lparr>events := E1\<rparr>) (req_id event) = Some r1" using 1(2) by simp
    from steps_attempts [where s = "s\<lparr>events := E1\<rparr>" and k = "req_id event" and r = r1
        and H = H and secret = secret and m = max_attempts and acts = acts] this
    obtain r' where 2: "?later acts (req_id event) = Some r'" "attempts r1 \<le> attempts r'"
      by blast
    have le: "max_attempts \<le> attempts r'" using 2(2) 1(4) assms(2) by simp
    then have le1: "max_attempts \<le> attempts r' + 1" by simp
    from failing_attempt_exhausted [where E = "?later acts" and ev = event and r = r'
        and m = max_attempts and exc = exc' and now = now'] 2(1) le1
    obtain E2 r2 where 3: "process_event max_attempts (Raises exc') now' event (?later acts) = Inr E2"
      "E2 (req_id event) = Some r2" "status r2 = failed" by blast
    from finish_attempt_exhausted [where E = "?later acts" and ev = event and r = r'
        and m = max_attempts and exc = exc' and now = now'] 2(1) le
    obtain r3 where 4: "finish_attempt max_attempts (Raises exc') now' event (?later acts) (req_id event) = Some r3"
      "status r3 = failed" by blast
    from 3 4 show ?thesis by blast
  qed
  with 1 show ?thesis by blast
qed

text \<open>
  C3, an instance: with the default bound 3, the third attempt on \<^verbatim>\<open>evt_1\<close> fails.
\<close>

theorem failed_is_terminal_witness:
  "\<forall>H secret.
   events (init_state\<lparr>events := [''evt_1'' \<mapsto> failed_once\<lparr>attempts := 2\<rparr>]\<rparr>) (req_id evt_1) =
     Some (failed_once\<lparr>attempts := 2\<rparr>) \<and>
   (3::int) \<le> attempts (failed_once\<lparr>attempts := 2\<rparr>) + 1 \<and>
   (\<exists>EVENTS1 entry1.
      process_event 3 (Raises ''timeout'') ''2026-02-16T10:23:47Z'' evt_1
        (events (init_state\<lparr>events := [''evt_1'' \<mapsto> failed_once\<lparr>attempts := 2\<rparr>]\<rparr>)) = Inr EVENTS1 \<and>
      EVENTS1 (req_id evt_1) = Some entry1 \<and>
      status entry1 = failed \<and>
      (\<forall>acts exc' now'. \<exists>EVENTS2 entry2 entry3.
         process_event 3 (Raises exc') now' evt_1
           (events (foldl (\<lambda>s a. step H secret 3 a s)
              (init_state\<lparr>events := [''evt_1'' \<mapsto> failed_once\<lparr>attempts := 2\<rparr>]\<rparr>\<lparr>events := EVENTS1\<rparr>) acts)) =
           Inr EVENTS2 \<and>
         EVENTS2 (req_id evt_1) = Some entry2 \<and>
         status entry2 = failed \<and>
         finish_attempt 3 (Raises exc') now' evt_1
           (events (foldl (\<lambda>s a. step H secret 3 a s)
              (init_state\<lparr>events := [''evt_1'' \<mapsto> failed_once\<lparr>attempts := 2\<rparr>]\<rparr>\<lparr>events := EVENTS1\<rparr>) acts))
           (req_id evt_1) = Some entry3 \<and>
         status entry3 = failed))"
proof (intro allI)
  fix H :: hmac and secret :: string
  let ?s = "init_state\<lparr>events := [''evt_1'' \<mapsto> failed_once\<lparr>attempts := 2\<rparr>]\<rparr>"
  have h: "events ?s (req_id evt_1) = Some (failed_once\<lparr>attempts := 2\<rparr>)"
    by (simp add: evt_1_def)
  have a: "(3::int) \<le> attempts (failed_once\<lparr>attempts := 2\<rparr>) + 1"
    by simp
  from h a failed_is_terminal [where s = ?s and event = evt_1
        and entry = "failed_once\<lparr>attempts := 2\<rparr>" and max_attempts = 3
        and exc = "''timeout''" and now = "''2026-02-16T10:23:47Z''" and H = H and secret = secret,
        OF h a]
  show "events ?s (req_id evt_1) = Some (failed_once\<lparr>attempts := 2\<rparr>) \<and>
   (3::int) \<le> attempts (failed_once\<lparr>attempts := 2\<rparr>) + 1 \<and>
   (\<exists>EVENTS1 entry1.
      process_event 3 (Raises ''timeout'') ''2026-02-16T10:23:47Z'' evt_1 (events ?s) = Inr EVENTS1 \<and>
      EVENTS1 (req_id evt_1) = Some entry1 \<and>
      status entry1 = failed \<and>
      (\<forall>acts exc' now'. \<exists>EVENTS2 entry2 entry3.
         process_event 3 (Raises exc') now' evt_1
           (events (foldl (\<lambda>s a. step H secret 3 a s) (?s\<lparr>events := EVENTS1\<rparr>) acts)) =
           Inr EVENTS2 \<and>
         EVENTS2 (req_id evt_1) = Some entry2 \<and>
         status entry2 = failed \<and>
         finish_attempt 3 (Raises exc') now' evt_1
           (events (foldl (\<lambda>s a. step H secret 3 a s) (?s\<lparr>events := EVENTS1\<rparr>) acts))
           (req_id evt_1) = Some entry3 \<and>
         status entry3 = failed))"
    by blast
qed

subsection \<open>Signature verification\<close>

lemma hex_digit_in: "hex_digit n \<in> set ''0123456789abcdef''"
  unfolding hex_digit_def by (rule nth_mem) simp

lemma hexdigest_chars: "set (hexdigest d) \<subseteq> set ''0123456789abcdef''"
  unfolding hexdigest_def using hex_digit_in by auto

lemma hexdigest_ascii: "is_ascii (hexdigest d)"
proof -
  have "\<forall>c \<in> set ''0123456789abcdef''. (of_char c :: nat) < 128" by simp
  with hexdigest_chars [of d] show ?thesis
    unfolding is_ascii_def list_all_iff by blast
qed

lemma hexdigest_no_comma: "CHR '','' \<notin> set (hexdigest d)"
proof -
  have "CHR '','' \<notin> set ''0123456789abcdef''" by simp
  with hexdigest_chars [of d] show ?thesis by blast
qed

lemma split_on_none: "sep \<notin> set xs \<Longrightarrow> split_on sep xs = [xs]"
  by (induction xs) auto

lemma split_on_first:
  "sep \<notin> set xs \<Longrightarrow> split_on sep (xs @ sep # ys) = xs # split_on sep ys"
  by (induction xs) auto

lemma parse_signature_header_roundtrip:
  assumes "CHR '','' \<notin> set ts" and "CHR '','' \<notin> set sig"
  shows "parse_signature_header (signature_header ts sig) = Inr (ts, sig)"
proof -
  have 1: "CHR '','' \<notin> set (''t='' @ ts)" using assms(1) by simp
  have 2: "CHR '','' \<notin> set (''v1='' @ sig)" using assms(2) by simp
  have "split_on CHR '','' ((''t='' @ ts) @ CHR '','' # (''v1='' @ sig)) = [''t='' @ ts, ''v1='' @ sig]"
    using split_on_first [OF 1] split_on_none [OF 2] by simp
  then show ?thesis
    by (simp add: parse_signature_header_def signature_header_def)
qed

lemma split_on_length: "length (split_on sep xs) = Suc (length (filter (\<lambda>c. c = sep) xs))"
  by (induction xs) (auto split: list.splits)

lemma parse_signature_header_commas:
  assumes "CHR '','' \<in> set sig"
  shows "parse_signature_header (signature_header ts sig) = Inl MalformedSignatureHeader"
proof -
  from assms have "filter (\<lambda>c. c = CHR '','') sig \<noteq> []"
    by (simp add: filter_empty_conv)
  then have "1 \<le> length (filter (\<lambda>c. c = CHR '','') sig)"
    by (cases "filter (\<lambda>c. c = CHR '','') sig") simp_all
  moreover have "length (filter (\<lambda>c. c = CHR '','') (signature_header ts sig)) =
      length (filter (\<lambda>c. c = CHR '','') ts) + 1 + length (filter (\<lambda>c. c = CHR '','') sig)"
    by (simp add: signature_header_def)
  ultimately have "3 \<le> length (split_on CHR '','' (signature_header ts sig))"
    unfolding split_on_length by simp
  then show ?thesis
    by (auto simp: parse_signature_header_def split: list.splits)
qed

lemma verify_signature_parsed:
  assumes "parse_signature_header header = Inr (ts, signature)"
  shows "verify_signature H body header secret =
     (if \<not> utf8_valid (map of_char body) then Inl UnicodeDecodeError
      else if \<not> is_ascii signature then Inl TypeError
      else Inr (sign H ts body secret = signature))"
  using assms
  by (simp add: verify_signature_def decode_def compare_digest_def sign_def encode_def
      hexdigest_ascii Let_def)

lemma verify_signature_roundtrip:
  assumes "utf8_valid (map of_char body)" and "CHR '','' \<notin> set ts"
  shows "verify_signature H body (signature_header ts (sign H ts body secret)) secret = Inr True"
proof -
  have "parse_signature_header (signature_header ts (sign H ts body secret)) =
          Inr (ts, sign H ts body secret)"
    using assms(2) by (simp add: parse_signature_header_roundtrip sign_def hexdigest_no_comma)
  from verify_signature_parsed [OF this] assms(1) show ?thesis
    by (simp add: sign_def hexdigest_ascii)
qed

lemma one_bit_apart_neq: "one_bit_apart c d \<Longrightarrow> c \<noteq> d"
  by (auto simp: one_bit_apart_def)

lemma single_bit_mutation_neq: "single_bit_mutation xs ys \<Longrightarrow> xs \<noteq> ys"
  by (induction xs ys rule: single_bit_mutation.induct) (auto dest: one_bit_apart_neq)

lemma single_bit_mutation_set:
  "single_bit_mutation xs ys \<Longrightarrow> d \<in> set ys \<Longrightarrow> d \<in> set xs \<or> (\<exists>c \<in> set xs. one_bit_apart c d)"
  by (induction xs ys rule: single_bit_mutation.induct) auto

lemma hex_not_near_comma:
  "c \<in> set ''0123456789abcdef'' \<Longrightarrow> \<not> one_bit_apart c CHR '',''"
  by (auto simp: one_bit_apart_def)

lemma mutated_hexdigest_no_comma:
  assumes "single_bit_mutation (hexdigest d) sig"
  shows "CHR '','' \<notin> set sig"
proof
  assume "CHR '','' \<in> set sig"
  from single_bit_mutation_set [OF assms this] hexdigest_no_comma [of d]
  obtain c where "c \<in> set (hexdigest d)" "one_bit_apart c CHR '',''" by blast
  with hexdigest_chars [of d] hex_not_near_comma show False by blast
qed

text \<open>
  C2 (as amended). For every keyed hash, every secret, every timestamp without a comma
  and every raw body that is well-formed UTF-8, verifying the signature obtained by
  signing \<^verbatim>\<open>"{timestamp}.{body}"\<close> returns true. After a single-bit mutation of the
  signature, verification returns false when the mutated signature is still ASCII and
  raises \<open>TypeError\<close> when it is not; any other signature in place of the right one is
  never accepted. With another body under the same header, verification raises
  \<open>UnicodeDecodeError\<close> when that body is not well-formed UTF-8, and otherwise returns
  true exactly when the hash of the new signed string has the same hexadecimal digest.
\<close>

theorem verify_signature_sign:
  assumes "utf8_valid (map of_char body)" and "CHR '','' \<notin> set ts"
  shows "verify_signature H body (signature_header ts (sign H ts body secret)) secret = Inr True \<and>
    (\<forall>signature. single_bit_mutation (sign H ts body secret) signature \<longrightarrow>
       verify_signature H body (signature_header ts signature) secret =
         (if is_ascii signature then Inr False else Inl TypeError)) \<and>
    (\<forall>signature. signature \<noteq> sign H ts body secret \<longrightarrow>
       verify_signature H body (signature_header ts signature) secret =
         (if CHR '','' \<in> set signature then Inl MalformedSignatureHeader
          else if is_ascii signature then Inr False
          else Inl TypeError)) \<and>
    (\<forall>body'. verify_signature H body' (signature_header ts (sign H ts body secret)) secret =
         (if utf8_valid (map of_char body')
          then Inr (sign H ts body' secret = sign H ts body secret)
          else Inl UnicodeDecodeError))"
proof -
  have other: "verify_signature H body (signature_header ts signature) secret =
         (if CHR '','' \<in> set signature then Inl MalformedSignatureHeader
          else if is_ascii signature then Inr False
          else Inl TypeError)"
    if ne: "signature \<noteq> sign H ts body secret" for signature
  proof (cases "CHR '','' \<in> set signature")
    case True
    then show ?thesis
      by (simp add: verify_signature_def parse_signature_header_commas)
  next
    case False
    with assms(2) have "parse_signature_header (signature_header ts signature) = Inr (ts, signature)"
      by (simp add: parse_signature_header_roundtrip)
    from verify_signature_parsed [OF this] assms(1) ne False show ?thesis
      by auto
  qed
  have mutated: "verify_signature H body (signature_header ts signature) secret =
         (if is_ascii signature then Inr False else Inl TypeError)"
    if m: "single_bit_mutation (sign H ts body secret) signature" for signature
  proof -
    from m have "signature \<noteq> sign H ts body secret"
      by (auto dest: single_bit_mutation_neq)
    moreover from m have "CHR '','' \<notin> set signature"
      unfolding sign_def by (rule mutated_hexdigest_no_comma)
    ultimately show ?thesis by (simp add: other)
  qed
  have body': "verify_signature H body' (signature_header ts (sign H ts body secret)) secret =
         (if utf8_valid (map of_char body')
          then Inr (sign H ts body' secret = sign H ts body secret)
          else Inl UnicodeDecodeError)" for body'
  proof -
    have "parse_signature_header (signature_header ts (sign H ts body secret)) =
            Inr (ts, sign H ts body secret)"
      using assms(2) by (simp add: parse_signature_header_roundtrip sign_def hexdigest_no_comma)
    from verify_signature_parsed [OF this] show ?thesis
      by (simp add: sign_def hexdigest_ascii)
  qed
  from verify_signature_roundtrip [OF assms] other mutated body' show ?thesis
    by blast
qed

text \<open>
  C2, an instance: the body \<^verbatim>\<open>{}\<close> signed at time 1700000000 with the secret
  \<^verbatim>\<open>whsec_test\<close>, whatever the keyed hash is.
\<close>

theorem verify_signature_sign_witness:
  "\<forall>H. utf8_valid (map of_char ''{}'') \<and> CHR '','' \<notin> set ''1700000000'' \<and>
     verify_signature H ''{}''
       (signature_header ''1700000000'' (sign H ''1700000000'' ''{}'' ''whsec_test''))
       ''whsec_test'' = Inr True \<and>
     verify_signature H [CHR 0xE1]
       (signature_header ''1700000000'' (sign H ''1700000000'' ''{}'' ''whsec_test''))
       ''whsec_test'' = Inl UnicodeDecodeError"
proof
  fix H :: hmac
  have v: "utf8_valid (map of_char ''{}'')" by simp
  have c: "CHR '','' \<notin> set ''1700000000''" by simp
  from verify_signature_sign [OF v c, where H = H and secret = "''whsec_test''"]
  have "verify_signature H ''{}''
       (signature_header ''1700000000'' (sign H ''1700000000'' ''{}'' ''whsec_test''))
       ''whsec_test'' = Inr True"
    and "\<forall>body'. verify_signature H body'
       (signature_header ''1700000000'' (sign H ''1700000000'' ''{}'' ''whsec_test''))
       ''whsec_test'' =
         (if utf8_valid (map of_char body')
          then Inr (sign H ''1700000000'' body' ''whsec_test'' = sign H ''1700000000'' ''{}'' ''whsec_test'')
          else Inl UnicodeDecodeError)"
    by blast+
  from this(1) this(2) [rule_format, of "[CHR 0xE1]"] v c
  show "utf8_valid (map of_char ''{}'') \<and> CHR '','' \<notin> set ''1700000000'' \<and>
     verify_signature H ''{}''
       (signature_header ''1700000000'' (sign H ''1700000000'' ''{}'' ''whsec_test''))
       ''whsec_test'' = Inr True \<and>
     verify_signature H [CHR 0xE1]
       (signature_header ''1700000000'' (sign H ''1700000000'' ''{}'' ''whsec_test''))
       ''whsec_test'' = Inl UnicodeDecodeError"
    by simp
qed

text \<open>
  C2 as stated fails. The body \<^verbatim>\<open>a\<close> (the byte 0x61) is signed; flipping its highest bit
  gives the byte 0xE1, which is not well-formed UTF-8, and verifying the mutated body
  against the original header does not return false: \<^verbatim>\<open>body.decode()\<close> raises
  \<open>UnicodeDecodeError\<close>, whatever the keyed hash is.
\<close>

theorem verify_signature_mutated_body_raises:
  "\<forall>H. single_bit_mutation ''a'' [CHR 0xE1] \<and>
     verify_signature H [CHR 0xE1]
       (signature_header ''1700000000'' (sign H ''1700000000'' ''a'' ''whsec_test''))
       ''whsec_test'' = Inl UnicodeDecodeError"
proof (intro allI conjI)
  show "single_bit_mutation ''a'' [CHR 0xE1]"
    by (simp add: one_bit_apart_def)
next
  fix H :: hmac
  have "parse_signature_header
          (signature_header ''1700000000'' (sign H ''1700000000'' ''a'' ''whsec_test'')) =
        Inr (''1700000000'', sign H ''1700000000'' ''a'' ''whsec_test'')"
    by (simp add: parse_signature_header_roundtrip sign_def hexdigest_no_comma)
  from verify_signature_parsed [OF this]
  show "verify_signature H [CHR 0xE1]
       (signature_header ''1700000000'' (sign H ''1700000000'' ''a'' ''whsec_test''))
       ''whsec_test'' = Inl UnicodeDecodeError"
    by simp
qed

subsection \<open>Ingestion\<close>

lemma step_keeps_entry:
  "events s k \<noteq> None \<Longrightarrow> events (step H secret m a s) k \<noteq> None"
  by (cases a)
     (auto simp: step_def receive_webhook_def persist_log_entry_def replay_event_def begin_attempt_def
        finish_attempt_def Let_def split: sum.splits option.splits if_splits)

lemma steps_keep_entry:
  "events s k \<noteq> None \<Longrightarrow> events (foldl (\<lambda>s a. step H secret m a s) s acts) k \<noteq> None"
proof (induction acts arbitrary: s)
  case Nil
  then show ?case by simp
next
  case (Cons a acts)
  from Cons.prems have "events (step H secret m a s) k \<noteq> None"
    by (rule step_keeps_entry)
  then have "events (foldl (\<lambda>s a. step H secret m a s) (step H secret m a s) acts) k \<noteq> None"
    by (rule Cons.IH)
  then show ?case by simp
qed

lemma receive_webhook_duplicate:
  assumes "signature_gate H secret raw_body stripe_signature = Inr ()"
    and "events s (req_id payload) = Some entry"
  shows "receive_webhook H secret now raw_body stripe_signature payload s =
           Inr ([(''status'', JString ''duplicate''),
                 (''event_id'', JString (req_id payload)),
                 (''attempts'', JInt (attempts entry))], s)"
  using assms by (simp add: receive_webhook_def persist_log_entry_def)

lemma receive_webhook_new:
  assumes "signature_gate H secret raw_body stripe_signature = Inr ()"
    and "events s (req_id payload) = None"
  shows "receive_webhook H secret now raw_body stripe_signature payload s =
           Inr ([(''status'', JString ''accepted''),
                 (''event_id'', JString (req_id payload))],
                s\<lparr>events := (events s)(req_id payload \<mapsto> new_entry payload now),
                  background_tasks := background_tasks s @ [payload]\<rparr>)"
  using assms by (simp add: receive_webhook_def persist_log_entry_def)

text \<open>
  C1. When the signature check lets the request through and the event id is not in the
  store, the first intake answers \<^verbatim>\<open>accepted\<close>, creates the record (the store gains
  exactly the new entry under the event's id) and schedules the worker once. After that,
  whatever requests, worker starts and attempt outcomes happen in between, every later
  intake with the same id that passes the signature check, whatever its type, data, body
  and header are, creates nothing: it finds the record, answers \<^verbatim>\<open>duplicate\<close> with the
  record's current \<open>attempts\<close>, and returns the state as it found it, so that no record
  is written or changed and nothing is scheduled.
\<close>

theorem intake_twice:
  assumes "signature_gate H secret raw_body stripe_signature = Inr ()"
    and "events s (req_id payload) = None"
  shows "\<exists>s1.
     receive_webhook H secret now raw_body stripe_signature payload s =
       Inr ([(''status'', JString ''accepted''), (''event_id'', JString (req_id payload))], s1) \<and>
     events s1 = (events s)(req_id payload \<mapsto> new_entry payload now) \<and>
     events s1 (req_id payload) = Some (new_entry payload now) \<and>
     background_tasks s1 = background_tasks s @ [payload] \<and>
     in_flight s1 = in_flight s \<and>
     (\<forall>acts now2 raw_body2 stripe_signature2 payload2.
        req_id payload2 = req_id payload \<and>
        signature_gate H secret raw_body2 stripe_signature2 = Inr () \<longrightarrow>
        (\<exists>entry.
           events (foldl (\<lambda>s a. step H secret max_attempts a s) s1 acts) (req_id payload) = Some entry \<and>
           receive_webhook H secret now2 raw_body2 stripe_signature2 payload2
               (foldl (\<lambda>s a. step H secret max_attempts a s) s1 acts) =
             Inr ([(''status'', JString ''duplicate''),
                   (''event_id'', JString (req_id payload)),
                   (''attempts'', JInt (attempts entry))],
                  foldl (\<lambda>s a. step H secret max_attempts a s) s1 acts)))"
proof -
  let ?s1 = "s\<lparr>events := (events s)(req_id payload \<mapsto> new_entry payload now),
               background_tasks := background_tasks s @ [payload]\<rparr>"
  let ?later = "\<lambda>acts. foldl (\<lambda>s a. step H secret max_attempts a s) ?s1 acts"
  have 1: "receive_webhook H secret now raw_body stripe_signature payload s =
       Inr ([(''status'', JString ''accepted''), (''event_id'', JString (req_id payload))], ?s1)"
    using assms by (rule receive_webhook_new)
  have 2: "events ?s1 (req_id payload) = Some (new_entry payload now)" by simp
  have ins: "events ?s1 = (events s)(req_id payload \<mapsto> new_entry payload now)" by simp
  have 3: "background_tasks ?s1 = background_tasks s @ [payload]" by simp
  have 4: "in_flight ?s1 = in_flight s" by simp
  have 5: "\<exists>entry.
        events (?later acts) (req_id payload) = Some entry \<and>
        receive_webhook H secret now2 raw_body2 stripe_signature2 payload2 (?later acts) =
          Inr ([(''status'', JString ''duplicate''),
                (''event_id'', JString (req_id payload)),
                (''attempts'', JInt (attempts entry))], ?later acts)"
    if same: "req_id payload2 = req_id payload"
      and gate: "signature_gate H secret raw_body2 stripe_signature2 = Inr ()"
    for acts now2 raw_body2 stripe_signature2 payload2
  proof -
    have "events ?s1 (req_id payload) \<noteq> None" by simp
    then have "events (?later acts) (req_id payload) \<noteq> None"
      by (rule steps_keep_entry)
    then obtain entry where e: "events (?later acts) (req_id payload) = Some entry"
      by auto
    then have e2: "events (?later acts) (req_id payload2) = Some entry"
      using same by simp
    from receive_webhook_duplicate [OF gate e2, of now2] same e show ?thesis
      by auto
  qed
  from 1 2 ins 3 4 5 show ?thesis by blast
qed

text \<open>
  C1, an instance: \<^verbatim>\<open>evt_1\<close> is delivered to the empty store, and then a request with
  the same id but another type, other data and another body; both without signature
  header.
\<close>

theorem intake_twice_witness:
  "\<forall>H. signature_gate H ''whsec_test'' ''{}'' None = Inr () \<and>
     events init_state (req_id evt_1) = None \<and>
     req_id evt_1_again = req_id evt_1 \<and>
     signature_gate H ''whsec_test'' ''{n}'' None = Inr () \<and>
     (\<exists>s1.
        receive_webhook H ''whsec_test'' ''2026-02-16T10:23:45Z'' ''{}'' None evt_1 init_state =
          Inr ([(''status'', JString ''accepted''), (''event_id'', JString ''evt_1'')], s1) \<and>
        receive_webhook H ''whsec_test'' ''2026-02-16T10:23:46Z'' ''{n}'' None evt_1_again s1 =
          Inr ([(''status'', JString ''duplicate''), (''event_id'', JString ''evt_1''),
                (''attempts'', JInt 0)], s1))"
proof
  fix H :: hmac
  have g: "signature_gate H ''whsec_test'' ''{}'' None = Inr ()"
    by (simp add: signature_gate_def)
  have g2: "signature_gate H ''whsec_test'' ''{n}'' None = Inr ()"
    by (simp add: signature_gate_def)
  have n: "events init_state (req_id evt_1) = None"
    by (simp add: init_state_def)
  have same: "req_id evt_1_again = req_id evt_1"
    by (simp add: evt_1_again_def evt_1_def)
  from intake_twice [OF g n, where now = "''2026-02-16T10:23:45Z''" and max_attempts = 3]
  obtain s1 where
    1: "receive_webhook H ''whsec_test'' ''2026-02-16T10:23:45Z'' ''{}'' None evt_1 init_state =
          Inr ([(''status'', JString ''accepted''), (''event_id'', JString (req_id evt_1))], s1)"
    and 2: "events s1 (req_id evt_1) = Some (new_entry evt_1 ''2026-02-16T10:23:45Z'')"
    and 3: "\<forall>acts now2 raw_body2 stripe_signature2 payload2.
        req_id payload2 = req_id evt_1 \<and>
        signature_gate H ''whsec_test'' raw_body2 stripe_signature2 = Inr () \<longrightarrow>
        (\<exists>entry.
           events (foldl (\<lambda>s a. step H ''whsec_test'' 3 a s) s1 acts) (req_id evt_1) = Some entry \<and>
           receive_webhook H ''whsec_test'' now2 raw_body2 stripe_signature2 payload2
               (foldl (\<lambda>s a. step H ''whsec_test'' 3 a s) s1 acts) =
             Inr ([(''status'', JString ''duplicate''),
                   (''event_id'', JString (req_id evt_1)),
                   (''attempts'', JInt (attempts entry))],
                  foldl (\<lambda>s a. step H ''whsec_test'' 3 a s) s1 acts))"
    by blast
  from 3 [rule_format, of evt_1_again "''{n}''" None "[]" "''2026-02-16T10:23:46Z''"] same g2 2
  have "receive_webhook H ''whsec_test'' ''2026-02-16T10:23:46Z'' ''{n}'' None evt_1_again s1 =
          Inr ([(''status'', JString ''duplicate''), (''event_id'', JString (req_id evt_1)),
                (''attempts'', JInt 0)], s1)"
    by (auto simp: new_entry_def)
  with 1 g g2 n same
  show "signature_gate H ''whsec_test'' ''{}'' None = Inr () \<and>
     events init_state (req_id evt_1) = None \<and>
     req_id evt_1_again = req_id evt_1 \<and>
     signature_gate H ''whsec_test'' ''{n}'' None = Inr () \<and>
     (\<exists>s1.
        receive_webhook H ''whsec_test'' ''2026-02-16T10:23:45Z'' ''{}'' None evt_1 init_state =
          Inr ([(''status'', JString ''accepted''), (''event_id'', JString ''evt_1'')], s1) \<and>
        receive_webhook H ''whsec_test'' ''2026-02-16T10:23:46Z'' ''{n}'' None evt_1_again s1 =
          Inr ([(''status'', JString ''duplicate''), (''event_id'', JString ''evt_1''),
                (''attempts'', JInt 0)], s1))"
    by (auto simp: evt_1_def)
qed

text \<open>
  C8 (as amended). The first intake of an event whose signature verifies answers with
  exactly the two fields \<^verbatim>\<open>status\<close> (\<^verbatim>\<open>accepted\<close>) and \<^verbatim>\<open>event_id\<close>; the attempt counter,
  which is 0 at that moment, is on the stored record only.
\<close>

theorem first_intake_accepted:
  assumes "verify_signature H raw_body header secret = Inr True"
    and "events s (req_id payload) = None"
  shows "\<exists>s'. receive_webhook H secret now raw_body (Some header) payload s =
           Inr ([(''status'', JString ''accepted''), (''event_id'', JString (req_id payload))], s') \<and>
         map_option attempts (events s' (req_id payload)) = Some 0"
  using assms by (simp add: receive_webhook_def persist_log_entry_def signature_gate_def new_entry_def)

text \<open>
  C8, an instance: \<^verbatim>\<open>evt_1\<close> with body \<^verbatim>\<open>{}\<close> and the header made by the sender for it.
\<close>

theorem first_intake_accepted_witness:
  "\<forall>H. verify_signature H ''{}''
           (signature_header ''1700000000'' (sign H ''1700000000'' ''{}'' ''whsec_test''))
           ''whsec_test'' = Inr True \<and>
        events init_state (req_id evt_1) = None \<and>
        (\<exists>s'. receive_webhook H ''whsec_test'' ''2026-02-16T10:23:45Z'' ''{}''
                 (Some (signature_header ''1700000000'' (sign H ''1700000000'' ''{}'' ''whsec_test'')))
                 evt_1 init_state =
               Inr ([(''status'', JString ''accepted''), (''event_id'', JString ''evt_1'')], s') \<and>
             map_option attempts (events s' ''evt_1'') = Some 0)"
proof
  fix H :: hmac
  let ?hdr = "signature_header ''1700000000'' (sign H ''1700000000'' ''{}'' ''whsec_test'')"
  have v: "verify_signature H ''{}'' ?hdr ''whsec_test'' = Inr True"
    by (rule verify_signature_roundtrip) simp_all
  have n: "events init_state (req_id evt_1) = None"
    by (simp add: init_state_def)
  from first_intake_accepted [OF v n, where now = "''2026-02-16T10:23:45Z''"] v n
  show "verify_signature H ''{}'' ?hdr ''whsec_test'' = Inr True \<and>
        events init_state (req_id evt_1) = None \<and>
        (\<exists>s'. receive_webhook H ''whsec_test'' ''2026-02-16T10:23:45Z'' ''{}'' (Some ?hdr)
                 evt_1 init_state =
               Inr ([(''status'', JString ''accepted''), (''event_id'', JString ''evt_1'')], s') \<and>
             map_option attempts (events s' ''evt_1'') = Some 0)"
    by (simp add: evt_1_def)
qed

text \<open>
  C8 as stated fails: the response to that first intake has two fields, and \<^verbatim>\<open>attempts\<close>
  is not one of them.
\<close>

theorem accepted_response_has_no_attempts:
  "\<forall>H. (case receive_webhook H ''whsec_test'' ''2026-02-16T10:23:45Z'' ''{}''
                 (Some (signature_header ''1700000000'' (sign H ''1700000000'' ''{}'' ''whsec_test'')))
                 evt_1 init_state of
           Inl e \<Rightarrow> None
         | Inr (resp, s') \<Rightarrow> Some (map_of resp ''attempts'', length resp)) = Some (None, 2)"
proof
  fix H :: hmac
  let ?hdr = "signature_header ''1700000000'' (sign H ''1700000000'' ''{}'' ''whsec_test'')"
  have v: "verify_signature H ''{}'' ?hdr ''whsec_test'' = Inr True"
    by (rule verify_signature_roundtrip) simp_all
  then show "(case receive_webhook H ''whsec_test'' ''2026-02-16T10:23:45Z'' ''{}'' (Some ?hdr)
                 evt_1 init_state of
           Inl e \<Rightarrow> None
         | Inr (resp, s') \<Rightarrow> Some (map_of resp ''attempts'', length resp)) = Some (None, 2)"
    by (simp add: receive_webhook_def persist_log_entry_def signature_gate_def init_state_def)
qed

subsection \<open>Replay\<close>

lemma replay_event_known_id:
  assumes "events s eid = Some entry"
  shows "\<exists>resp s' entry'. replay_event eid s = Inr (resp, s') \<and>
           events s' eid = Some entry' \<and>
           replay_count entry' = replay_count entry + 1 \<and>
           attempts entry' = attempts entry \<and>
           background_tasks s' = background_tasks s @
             [\<lparr>req_id = event_id entry, req_type = event_type entry, req_data = metadata entry\<rparr>]"
  using assms by (simp add: replay_event_def Let_def)

lemma replay_event_absent:
  assumes "events s eid = None"
  shows "replay_event eid s = Inl AttributeError"
  using assms by (simp add: replay_event_def)

text \<open>
  C4. Replaying an id that is not in the store does not fail with \<open>NotFound\<close>: the
  handler reads \<^verbatim>\<open>replay_count\<close> of the \<^verbatim>\<open>None\<close> it got from \<^verbatim>\<open>_EVENTS.get\<close> and raises
  \<open>AttributeError\<close>. (For an id that is in the store, \<open>replay_event_known_id\<close> above
  gives the rest of the claim.)
\<close>

theorem replay_event_unknown_id:
  "replay_event ''evt_unknown'' init_state = Inl AttributeError"
  by (simp add: replay_event_def init_state_def)

subsection \<open>Every run is consistent\<close>

lemma consistent_init: "consistent init_state"
  by (simp add: consistent_def init_state_def)

lemma consistent_receive_webhook:
  assumes "consistent s"
    and "receive_webhook H secret now raw_body sig payload s = Inr (resp, s')"
  shows "consistent s'"
  using assms
  by (auto simp: consistent_def receive_webhook_def persist_log_entry_def new_entry_def
      split: sum.splits option.splits if_splits)

lemma consistent_replay_event:
  assumes "consistent s" and "replay_event eid s = Inr (resp, s')"
  shows "consistent s'"
  using assms
  by (auto simp: consistent_def replay_event_def Let_def split: option.splits if_splits)

lemma consistent_begin:
  assumes "consistent s" and "event \<in> set (background_tasks s)"
  shows "consistent (step H secret m (Begin event) s)"
proof -
  from assms have "events s (req_id event) \<noteq> None"
    unfolding consistent_def by blast
  then obtain r where r: "events s (req_id event) = Some r"
    by auto
  have "set (remove1 event (background_tasks s)) \<subseteq> set (background_tasks s)"
    by (rule set_remove1_subset)
  with assms r show ?thesis
    by (auto simp: consistent_def step_def begin_attempt_def split: if_splits)
qed

lemma record_outcome_processed:
  "status (record_outcome m out now r) = processed \<Longrightarrow>
   processed_at (record_outcome m out now r) \<noteq> None"
  by (cases out) (auto simp: record_outcome_def Let_def split: if_splits)

lemma record_outcome_event_id: "event_id (record_outcome m out now r) = event_id r"
  by (cases out) (auto simp: record_outcome_def Let_def)

lemma consistent_finish:
  assumes "consistent s" and "event \<in> set (in_flight s)"
  shows "consistent (step H secret m (Finish event out now) s)"
proof -
  from assms have "events s (req_id event) \<noteq> None"
    unfolding consistent_def by blast
  then obtain r where r: "events s (req_id event) = Some r"
    by auto
  have "set (remove1 event (in_flight s)) \<subseteq> set (in_flight s)"
    by (rule set_remove1_subset)
  with assms r show ?thesis
    by (auto simp: consistent_def step_def finish_attempt_def record_outcome_event_id
        dest: record_outcome_processed split: if_splits)
qed

lemma consistent_step: "consistent s \<Longrightarrow> consistent (step H secret m a s)"
proof (cases a)
  case (Intake now raw_body sig payload)
  assume c: "consistent s"
  show ?thesis
  proof (cases "receive_webhook H secret now raw_body sig payload s")
    case (Inl e)
    with Intake c show ?thesis by (simp add: step_def)
  next
    case (Inr p)
    obtain resp s' where "p = (resp, s')" by (cases p)
    with Inr Intake c consistent_receive_webhook [OF c] show ?thesis
      by (simp add: step_def)
  qed
next
  case (Replay eid)
  assume c: "consistent s"
  show ?thesis
  proof (cases "replay_event eid s")
    case (Inl e)
    with Replay c show ?thesis by (simp add: step_def)
  next
    case (Inr p)
    obtain resp s' where "p = (resp, s')" by (cases p)
    with Inr Replay c consistent_replay_event [OF c] show ?thesis
      by (simp add: step_def)
  qed
next
  case (Begin event)
  assume c: "consistent s"
  show ?thesis
  proof (cases "event \<in> set (background_tasks s)")
    case True
    with c Begin show ?thesis by (simp add: consistent_begin)
  next
    case False
    with c Begin show ?thesis by (simp add: step_def)
  qed
next
  case (Finish event out now)
  assume c: "consistent s"
  show ?thesis
  proof (cases "event \<in> set (in_flight s)")
    case True
    with c Finish show ?thesis by (simp add: consistent_finish)
  next
    case False
    with c Finish show ?thesis by (simp add: step_def)
  qed
qed

lemma consistent_steps:
  "consistent s \<Longrightarrow> consistent (foldl (\<lambda>s a. step H secret m a s) s acts)"
  by (induction acts arbitrary: s) (simp_all add: consistent_step)

lemma consistent_run: "consistent (run H secret m acts)"
  unfolding run_def by (rule consistent_steps) (rule consistent_init)

lemmas run_simps = run_def step_def receive_webhook_def persist_log_entry_def signature_gate_def replay_event_def
  begin_attempt_def finish_attempt_def record_outcome_def new_entry_def init_state_def
  evt_1_def Let_def

lemma sample_run_result:
  "events (run H secret 3 sample_run) ''evt_1'' =
     Some ((new_entry evt_1 ''2026-02-16T10:23:45Z'')
            \<lparr>status := processed, processed_at := Some ''2026-02-16T10:23:46Z'', attempts := 1\<rparr>)"
  by (simp add: run_simps sample_run_def)

text \<open>
  C6 (as amended). In every state that a run of the service reaches, a record whose
  status is \<open>processed\<close> (its latest transition landed on \<open>processed\<close>) has a non-null
  \<open>processed_at\<close>. The converse is not claimed.
\<close>

theorem processed_has_processed_at:
  assumes "events (run H secret max_attempts acts) eid = Some entry"
    and "status entry = processed"
  shows "processed_at entry \<noteq> None"
  using consistent_run [of H secret max_attempts acts] assms
  unfolding consistent_def by blast

text \<open>C6, an instance: \<^verbatim>\<open>evt_1\<close> after its first, successful attempt.\<close>

theorem processed_has_processed_at_witness:
  "\<forall>H secret.
     events (run H secret 3 sample_run) ''evt_1'' =
       Some ((new_entry evt_1 ''2026-02-16T10:23:45Z'')
              \<lparr>status := processed, processed_at := Some ''2026-02-16T10:23:46Z'', attempts := 1\<rparr>) \<and>
     status ((new_entry evt_1 ''2026-02-16T10:23:45Z'')
              \<lparr>status := processed, processed_at := Some ''2026-02-16T10:23:46Z'', attempts := 1\<rparr>)
       = processed \<and>
     processed_at ((new_entry evt_1 ''2026-02-16T10:23:45Z'')
              \<lparr>status := processed, processed_at := Some ''2026-02-16T10:23:46Z'', attempts := 1\<rparr>)
       \<noteq> None"
proof (intro allI)
  fix H :: hmac and secret :: string
  let ?e = "(new_entry evt_1 ''2026-02-16T10:23:45Z'')
              \<lparr>status := processed, processed_at := Some ''2026-02-16T10:23:46Z'', attempts := 1\<rparr>"
  have r: "events (run H secret 3 sample_run) ''evt_1'' = Some ?e"
    by (rule sample_run_result)
  have p: "status ?e = processed" by simp
  from processed_has_processed_at [OF r p] r p
  show "events (run H secret 3 sample_run) ''evt_1'' = Some ?e \<and> status ?e = processed \<and>
        processed_at ?e \<noteq> None"
    by blast
qed

text \<open>
  C6 as stated fails: \<^verbatim>\<open>evt_1\<close> is processed successfully, then replayed, and the replayed
  attempt fails. The record's latest transition landed on \<open>retry_scheduled\<close>, and its
  \<open>processed_at\<close> is still the time of the earlier success.
\<close>

theorem processed_at_survives_failure:
  "\<forall>H secret.
     map_option (\<lambda>entry. (status entry, processed_at entry))
       (events (run H secret 3 (sample_run @ sample_replay)) ''evt_1'') =
     Some (retry_scheduled, Some ''2026-02-16T10:23:46Z'')"
  by (simp add: run_simps sample_run_def sample_replay_def)

text \<open>
  C7. In every state that a run reaches, for every task that intake or replay has
  scheduled, the worker returns normally whether the dispatch returns or raises an
  \<^verbatim>\<open>Exception\<close>, and the outcome is on the record: \<open>processed\<close> with its timestamp, or
  the error text with \<open>retry_scheduled\<close> or \<open>failed\<close>.
\<close>

theorem process_event_contains_failures:
  assumes "event \<in> set (background_tasks (run H secret max_attempts acts))"
  shows "\<exists>EVENTS' entry'.
           process_event max_attempts out now event (events (run H secret max_attempts acts)) =
             Inr EVENTS' \<and>
           EVENTS' (req_id event) = Some entry' \<and>
           (case out of
              Succeeds \<Rightarrow> status entry' = processed \<and> processed_at entry' = Some now
            | Raises exc \<Rightarrow>
                last_error entry' = Some exc \<and>
                status entry' = (if attempts entry' < max_attempts then retry_scheduled else failed))"
proof -
  from consistent_run [of H secret max_attempts acts] assms
  have "events (run H secret max_attempts acts) (req_id event) \<noteq> None"
    unfolding consistent_def by blast
  then obtain entry where "events (run H secret max_attempts acts) (req_id event) = Some entry"
    by auto
  then show ?thesis
    by (cases out) (simp_all add: process_event_present record_outcome_def Let_def)
qed

text \<open>C7, an instance: the task scheduled by the first intake of \<^verbatim>\<open>evt_1\<close> fails.\<close>

theorem process_event_contains_failures_witness:
  "\<forall>H secret.
     evt_1 \<in> set (background_tasks (run H secret 3 [Intake ''2026-02-16T10:23:45Z'' ''{}'' None evt_1])) \<and>
     (\<exists>EVENTS' entry'.
        process_event 3 (Raises ''boom'') ''2026-02-16T10:23:46Z'' evt_1
          (events (run H secret 3 [Intake ''2026-02-16T10:23:45Z'' ''{}'' None evt_1])) = Inr EVENTS' \<and>
        EVENTS' (req_id evt_1) = Some entry' \<and>
        last_error entry' = Some ''boom'' \<and>
        status entry' = (if attempts entry' < 3 then retry_scheduled else failed))"
proof (intro allI)
  fix H :: hmac and secret :: string
  let ?acts = "[Intake ''2026-02-16T10:23:45Z'' ''{}'' None evt_1]"
  have q: "evt_1 \<in> set (background_tasks (run H secret 3 ?acts))"
    by (simp add: run_def step_def receive_webhook_def persist_log_entry_def signature_gate_def init_state_def)
  from process_event_contains_failures [OF q, where out = "Raises ''boom''"
      and now = "''2026-02-16T10:23:46Z''"] q
  show "evt_1 \<in> set (background_tasks (run H secret 3 ?acts)) \<and>
     (\<exists>EVENTS' entry'.
        process_event 3 (Raises ''boom'') ''2026-02-16T10:23:46Z'' evt_1
          (events (run H secret 3 ?acts)) = Inr EVENTS' \<and>
        EVENTS' (req_id evt_1) = Some entry' \<and>
        last_error entry' = Some ''boom'' \<and>
        status entry' = (if attempts entry' < 3 then retry_scheduled else failed))"
    by simp
qed

end
